theory Spec2Isabelle
  imports Main
begin

section \<open>Strings as the uploader uses them\<close>

text \<open>
  The uploader (\<^verbatim>\<open>video_slice_uploader.py\<close>) only ever tests file names and error
  messages with three string operations of Python: \<^verbatim>\<open>str.endswith\<close>,
  the substring test \<^verbatim>\<open>sub in s\<close>, and \<^verbatim>\<open>str.strip('/')\<close> /
  \<^verbatim>\<open>str.rstrip('/')\<close>.
\<close>

definition endswith :: "string \<Rightarrow> string \<Rightarrow> bool" where
  "endswith s suf = (length suf \<le> length s \<and> drop (length s - length suf) s = suf)"

fun str_contains :: "string \<Rightarrow> string \<Rightarrow> bool" where
  "str_contains sub [] = (sub = [])"
| "str_contains sub (c # cs) = (take (length sub) (c # cs) = sub \<or> str_contains sub cs)"

definition rstrip_slash :: "string \<Rightarrow> string" where
  "rstrip_slash s = rev (dropWhile (\<lambda>c. c = CHR ''/'') (rev s))"

definition strip_slash :: "string \<Rightarrow> string" where
  "strip_slash s = rstrip_slash (dropWhile (\<lambda>c. c = CHR ''/'') s)"

text \<open>\<^verbatim>\<open>f.endswith(('.ts', '.m3u8'))\<close>: the files an upload job transfers.\<close>

definition eligible :: "string \<Rightarrow> bool" where
  "eligible f = (endswith f ''.ts'' \<or> endswith f ''.m3u8'')"

section \<open>The application state and the environment of an upload\<close>

text \<open>
  The Tk variables of \<^verbatim>\<open>setup_variables\<close> that the storage code reads and that
  \<^verbatim>\<open>load_config\<close> writes. \<^verbatim>\<open>StringVar\<close>s are strings, \<^verbatim>\<open>BooleanVar\<close>s booleans.
\<close>

record config =
  segment_duration :: string
  quality_crf :: string
  server_ip :: string
  server_port :: string
  username :: string
  password :: string
  upload_path :: string
  use_ssl :: bool
  qiniu_access_key :: string
  qiniu_secret_key :: string
  qiniu_bucket_name :: string
  qiniu_domain :: string
  use_qiniu :: bool
  cache_path :: string

text \<open>
  What the outside world does to one attempt of the object-storage loop.
  \<open>PutOk file_size upload_time_zero\<close>: \<^verbatim>\<open>put_file_v2\<close> answers with the key;
  \<open>file_size\<close> is \<^verbatim>\<open>os.path.getsize(local_file)\<close> and \<open>upload_time_zero\<close> tells whether
  \<^verbatim>\<open>end_time - start_time\<close> is zero (the success branch computes
  \<^verbatim>\<open>file_size / upload_time\<close> when \<^verbatim>\<open>file_size > 0\<close>, inside the \<^verbatim>\<open>try\<close>, and of the
  elapsed time only this decides what the loop does).
  \<open>PutRejected\<close>: \<^verbatim>\<open>put_file_v2\<close> answers with something else (the \<^verbatim>\<open>else\<close> branch).
  \<open>PutRaised\<close>: a call of the \<^verbatim>\<open>try\<close> block raises, with \<^verbatim>\<open>str(upload_error)\<close>.
\<close>

datatype qiniu_outcome = PutOk nat bool | PutRejected | PutRaised string

text \<open>
  One attempt of the FTP loop. \<open>StorOk file_size upload_time_zero\<close>: \<^verbatim>\<open>storbinary\<close>
  returns, with the size of the file and whether the elapsed time is zero (the same
  division follows, inside the \<^verbatim>\<open>try\<close>). \<open>StorRaised\<close>: a call of the \<^verbatim>\<open>try\<close> block
  raises, with \<^verbatim>\<open>str(upload_error)\<close>.
\<close>

datatype stor_outcome = StorOk nat bool | StorRaised string

text \<open>
  The outside world of one upload job, as a script of answers. The answer to a transfer is
  indexed by the remote name and the attempt number (1, 2, 3).
  \<open>create_remote_directory_ok\<close> is the boolean \<^verbatim>\<open>create_remote_directory\<close> returns for a
  remote directory, \<open>ftp_pwd\<close> the answer of \<^verbatim>\<open>ftp.pwd()\<close> before a file is sent (\<open>None\<close>
  when it raises), \<open>ftp_quit_ok\<close> whether the final \<^verbatim>\<open>ftp.quit()\<close> returns.
\<close>

record backend =
  QINIU_AVAILABLE :: bool
  put_file_v2 :: "string \<Rightarrow> nat \<Rightarrow> qiniu_outcome"
  connect_ftp_ok :: bool
  create_remote_directory_ok :: "string \<Rightarrow> bool"
  ftp_pwd :: "string \<Rightarrow> string option"
  storbinary :: "string \<Rightarrow> nat \<Rightarrow> stor_outcome"
  ftp_quit_ok :: bool

text \<open>
  What an upload function leaves behind: the boolean it returns, the two counters
  \<^verbatim>\<open>files_uploaded\<close> and \<^verbatim>\<open>total_files\<close> at that moment (0 when the function returns
  before it sets them), and the log of transfer attempts in order, each as
  (file name, remote name, attempt number).
\<close>

record upload_result =
  result :: bool
  files_uploaded :: nat
  total_files :: nat
  attempts_log :: "(string \<times> string \<times> nat) list"

definition early_return :: "bool \<Rightarrow> upload_result" where
  "early_return b = \<lparr>result = b, files_uploaded = 0, total_files = 0, attempts_log = []\<rparr>"

definition max_retries :: nat where
  "max_retries = 3"

text \<open>\<^verbatim>\<open>range(1, max_retries + 1)\<close>\<close>

definition attempt_range :: "nat list" where
  "attempt_range = [1 ..< max_retries + 1]"

section \<open>Object storage: \<^verbatim>\<open>upload_to_qiniu\<close>\<close>

text \<open>
  The retry loop of one file. When \<^verbatim>\<open>put_file_v2\<close> answers with the key, the speed is
  computed first: with a file that is not empty and an elapsed time of zero the division
  raises \<^verbatim>\<open>ZeroDivisionError\<close>, which the \<^verbatim>\<open>except\<close> branch of the attempt catches;
  otherwise \<^verbatim>\<open>upload_success\<close> is set and the loop breaks. The \<^verbatim>\<open>else\<close> branch and the
  \<^verbatim>\<open>except\<close> branch both go on to the next attempt (they differ in what they log; both
  sleep 2 seconds when an attempt remains). Returns \<^verbatim>\<open>upload_success\<close> and the attempts
  made.
\<close>

fun qiniu_retry :: "(nat \<Rightarrow> qiniu_outcome) \<Rightarrow> nat list \<Rightarrow> bool \<times> nat list" where
  "qiniu_retry put [] = (False, [])"
| "qiniu_retry put (a # as) =
     (case put a of
        PutOk file_size upload_time_zero \<Rightarrow>
          (if 0 < file_size \<and> upload_time_zero
             then (let (ok, made) = qiniu_retry put as in (ok, a # made))
           else (True, [a]))
      | PutRejected \<Rightarrow> (let (ok, made) = qiniu_retry put as in (ok, a # made))
      | PutRaised msg \<Rightarrow> (let (ok, made) = qiniu_retry put as in (ok, a # made)))"

text \<open>The key of a file: \<^verbatim>\<open>f"{video_name}/{filename}"\<close>.\<close>

definition qiniu_key :: "string \<Rightarrow> string \<Rightarrow> string" where
  "qiniu_key video_name filename = video_name @ ''/'' @ filename"

text \<open>
  The loop over \<^verbatim>\<open>os.listdir(output_dir)\<close>: returns \<^verbatim>\<open>files_uploaded\<close> and the log.
\<close>

fun qiniu_files ::
  "backend \<Rightarrow> string \<Rightarrow> string list \<Rightarrow> nat \<times> (string \<times> string \<times> nat) list" where
  "qiniu_files b video_name [] = (0, [])"
| "qiniu_files b video_name (filename # rest) =
     (if eligible filename then
        (let key = qiniu_key video_name filename;
             (upload_success, made) = qiniu_retry (put_file_v2 b key) attempt_range;
             (n, log) = qiniu_files b video_name rest
         in ((if upload_success then 1 else 0) + n,
             map (\<lambda>a. (filename, key, a)) made @ log))
      else qiniu_files b video_name rest)"

text \<open>
  \<^verbatim>\<open>upload_to_qiniu(output_dir, playlist_file)\<close>. \<open>listing\<close> is
  \<^verbatim>\<open>os.listdir(output_dir)\<close> (\<open>None\<close> when it raises, which the outer \<^verbatim>\<open>except\<close> turns
  into \<^verbatim>\<open>False\<close>; the directory does not change during the job), \<open>video_name\<close> is
  \<^verbatim>\<open>os.path.basename(output_dir)\<close>.
\<close>

definition upload_to_qiniu ::
  "config \<Rightarrow> backend \<Rightarrow> string list option \<Rightarrow> string \<Rightarrow> upload_result" where
  "upload_to_qiniu c b listing video_name =
     (if \<not> QINIU_AVAILABLE b then early_return False
      else if \<not> (qiniu_access_key c \<noteq> [] \<and> qiniu_secret_key c \<noteq> [] \<and> qiniu_bucket_name c \<noteq> [])
        then early_return False
      else case listing of
             None \<Rightarrow> early_return False
           | Some names \<Rightarrow>
               (let total = length (filter eligible names);
                    (n, log) = qiniu_files b video_name names
                in \<lparr>result = (if n = total then True else 0 < n),
                    files_uploaded = n, total_files = total, attempts_log = log\<rparr>))"

section \<open>Directory server: \<^verbatim>\<open>upload_to_ftp\<close>\<close>

text \<open>
  The remote directory of a job: the upload path without leading and trailing slashes,
  then the job name; the paths \<^verbatim>\<open>''\<close>, \<^verbatim>\<open>'.'\<close> and \<^verbatim>\<open>'v'\<close> give the job name alone.
\<close>

definition ftp_remote_dir :: "string \<Rightarrow> string \<Rightarrow> string" where
  "ftp_remote_dir upload_path_value video_name =
     (let up = strip_slash upload_path_value
      in if up \<in> set ['''', ''.'', ''v''] then video_name
         else up @ ''/'' @ video_name)"

text \<open>The name a file is stored under, from the server's current directory.\<close>

definition ftp_remote_file :: "backend \<Rightarrow> string \<Rightarrow> string \<Rightarrow> string" where
  "ftp_remote_file b remote_dir filename =
     (case ftp_pwd b filename of
        Some current_ftp_dir \<Rightarrow>
          (if rstrip_slash current_ftp_dir = rstrip_slash remote_dir then filename
           else remote_dir @ ''/'' @ filename)
      | None \<Rightarrow> remote_dir @ ''/'' @ filename)"

text \<open>
  The retry loop of one file. An exception whose message contains \<^verbatim>\<open>10060\<close> sleeps and
  goes on to the next attempt; one whose message contains \<^verbatim>\<open>553\<close> runs the directory
  diagnosis (which catches its own failures and changes no counter) and breaks; any other
  exception breaks. When \<^verbatim>\<open>storbinary\<close> returns, the speed is computed before
  \<^verbatim>\<open>upload_success\<close> is set: with a file that is not empty and an elapsed time of zero the
  division raises \<^verbatim>\<open>ZeroDivisionError\<close>, whose message contains neither code, so the last
  branch breaks with \<^verbatim>\<open>upload_success\<close> still false.
\<close>

fun ftp_retry :: "(nat \<Rightarrow> stor_outcome) \<Rightarrow> nat list \<Rightarrow> bool \<times> nat list" where
  "ftp_retry stor [] = (False, [])"
| "ftp_retry stor (a # as) =
     (case stor a of
        StorOk file_size upload_time_zero \<Rightarrow>
          (if 0 < file_size \<and> upload_time_zero then (False, [a]) else (True, [a]))
      | StorRaised error_msg \<Rightarrow>
          (if str_contains ''10060'' error_msg
             then (let (ok, made) = ftp_retry stor as in (ok, a # made))
           else if str_contains ''553'' error_msg then (False, [a])
           else (False, [a])))"

fun ftp_files ::
  "backend \<Rightarrow> string \<Rightarrow> string list \<Rightarrow> nat \<times> (string \<times> string \<times> nat) list" where
  "ftp_files b remote_dir [] = (0, [])"
| "ftp_files b remote_dir (filename # rest) =
     (if eligible filename then
        (let remote_file = ftp_remote_file b remote_dir filename;
             (upload_success, made) = ftp_retry (storbinary b remote_file) attempt_range;
             (n, log) = ftp_files b remote_dir rest
         in ((if upload_success then 1 else 0) + n,
             map (\<lambda>a. (filename, remote_file, a)) made @ log))
      else ftp_files b remote_dir rest)"

text \<open>
  \<^verbatim>\<open>upload_to_ftp(output_dir, playlist_file)\<close>. After the loop the function calls
  \<^verbatim>\<open>ftp.quit()\<close> and returns \<^verbatim>\<open>True\<close>; only an exception (here: of \<^verbatim>\<open>os.listdir\<close> or
  of \<^verbatim>\<open>ftp.quit()\<close>) makes it return \<^verbatim>\<open>False\<close> from then on.
\<close>

definition upload_to_ftp ::
  "config \<Rightarrow> backend \<Rightarrow> string list option \<Rightarrow> string \<Rightarrow> upload_result" where
  "upload_to_ftp c b listing video_name =
     (if \<not> connect_ftp_ok b then early_return False
      else
        (let remote_dir = ftp_remote_dir (upload_path c) video_name
         in if \<not> create_remote_directory_ok b remote_dir then early_return False
            else case listing of
                   None \<Rightarrow> early_return False
                 | Some names \<Rightarrow>
                     (let total = length (filter eligible names);
                          (n, log) = ftp_files b remote_dir names
                      in \<lparr>result = ftp_quit_ok b,
                          files_uploaded = n, total_files = total, attempts_log = log\<rparr>)))"

text \<open>\<^verbatim>\<open>upload_to_server\<close> (and \<^verbatim>\<open>upload_directory_to_server\<close>, which is the same code).\<close>

definition upload_to_server ::
  "config \<Rightarrow> backend \<Rightarrow> string list option \<Rightarrow> string \<Rightarrow> upload_result" where
  "upload_to_server c b listing video_name =
     (if use_qiniu c then upload_to_qiniu c b listing video_name
      else upload_to_ftp c b listing video_name)"

section \<open>The local cache\<close>

text \<open>
  The cache root holds entries by name; a job directory holds entries of which
  \<^verbatim>\<open>os.path.isfile\<close> is true or not. Every directory can be listed; order is the order of
  \<^verbatim>\<open>os.listdir\<close>.
\<close>

datatype node = FileNode | DirNode "(string \<times> bool) list"

type_synonym cache_root = "(string \<times> node) list"

text \<open>\<^verbatim>\<open>os.listdir(os.path.join(cache_path, item))\<close>; \<open>None\<close> when it raises.\<close>

definition listdir :: "cache_root \<Rightarrow> string \<Rightarrow> string list option" where
  "listdir root item =
     (case map_of root item of
        Some (DirNode entries) \<Rightarrow> Some (map fst entries)
      | Some FileNode \<Rightarrow> None
      | None \<Rightarrow> None)"

text \<open>
  The scan of \<^verbatim>\<open>update_cache_status\<close> (\<^verbatim>\<open>process_reupload\<close> selects with the same
  test): one record \<^verbatim>\<open>{'dir', 'ts_count', 'm3u8_count'}\<close> for each subdirectory that has
  names ending in \<^verbatim>\<open>.ts\<close> and names ending in \<^verbatim>\<open>.m3u8\<close>.
\<close>

fun cache_files :: "cache_root \<Rightarrow> (string \<times> nat \<times> nat) list" where
  "cache_files [] = []"
| "cache_files ((item, FileNode) # rest) = cache_files rest"
| "cache_files ((item, DirNode entries) # rest) =
     (let ts_files = filter (\<lambda>f. endswith f ''.ts'') (map fst entries);
          m3u8_files = filter (\<lambda>f. endswith f ''.m3u8'') (map fst entries)
      in if ts_files \<noteq> [] \<and> m3u8_files \<noteq> []
         then (item, length ts_files, length m3u8_files) # cache_files rest
         else cache_files rest)"

text \<open>\<^verbatim>\<open>validate_cache_directory(directory)\<close>; \<open>None\<close> is a path that does not exist.\<close>

definition validate_cache_directory :: "node option \<Rightarrow> bool" where
  "validate_cache_directory directory =
     (case directory of
        Some (DirNode entries) \<Rightarrow>
          (let ts_files = filter (\<lambda>f. endswith f ''.ts'') (map fst entries);
               m3u8_files = filter (\<lambda>f. endswith f ''.m3u8'') (map fst entries)
           in 0 < length ts_files \<and> 0 < length m3u8_files)
      | Some FileNode \<Rightarrow> False
      | None \<Rightarrow> False)"

text \<open>
  What the operating system answers to the deletions of \<^verbatim>\<open>cleanup_local_files\<close>:
  whether \<^verbatim>\<open>os.remove\<close> of a file returns, and whether \<^verbatim>\<open>os.rmdir\<close> of an empty
  directory returns (on a directory that is not empty it always raises).
\<close>

record local_os =
  os_remove_ok :: "string \<Rightarrow> bool"
  os_rmdir_ok :: bool

text \<open>
  The loop of \<^verbatim>\<open>cleanup_local_files\<close>: regular files are removed in order, other entries
  are skipped, the first removal that raises ends the loop. Returns the entries left in the
  directory and whether the loop ran to its end.
\<close>

fun remove_files :: "local_os \<Rightarrow> (string \<times> bool) list \<Rightarrow> (string \<times> bool) list \<times> bool" where
  "remove_files os [] = ([], True)"
| "remove_files os ((filename, isfile) # rest) =
     (if isfile then
        (if os_remove_ok os filename then remove_files os rest
         else ((filename, isfile) # rest, False))
      else (let (kept, ok) = remove_files os rest in ((filename, isfile) # kept, ok)))"

text \<open>
  \<^verbatim>\<open>cleanup_local_files(output_dir)\<close> on the job directory \<open>item\<close> of the cache. The
  boolean tells whether the \<^verbatim>\<open>try\<close> block ran to its end (the function itself returns
  nothing and only logs a warning otherwise).
\<close>

definition cleanup_local_files :: "local_os \<Rightarrow> cache_root \<Rightarrow> string \<Rightarrow> cache_root \<times> bool" where
  "cleanup_local_files os root item =
     (case map_of root item of
        Some (DirNode entries) \<Rightarrow>
          (let (kept, ok) = remove_files os entries
           in if ok \<and> kept = [] \<and> os_rmdir_ok os
              then (filter (\<lambda>e. fst e \<noteq> item) root, True)
              else (map (\<lambda>e. if fst e = item then (item, DirNode kept) else e) root, False))
      | Some FileNode \<Rightarrow> (root, False)
      | None \<Rightarrow> (root, False))"

text \<open>
  \<^verbatim>\<open>process_video\<close> from the call of \<^verbatim>\<open>execute_ffmpeg\<close> on. \<open>root\<close> is the cache as
  the transcoder leaves it, \<open>item\<close> the name of the job directory in it (the base name of
  \<^verbatim>\<open>output_dir\<close>), \<open>execute_ffmpeg_ok\<close> what \<^verbatim>\<open>execute_ffmpeg\<close> returns.
\<close>

record process_outcome =
  cache_after :: cache_root
  cleanup_invoked :: bool

definition process_video ::
  "config \<Rightarrow> backend \<Rightarrow> local_os \<Rightarrow> bool \<Rightarrow> cache_root \<Rightarrow> string \<Rightarrow> process_outcome" where
  "process_video c b os execute_ffmpeg_ok root item =
     (if execute_ffmpeg_ok then
        (if result (upload_to_server c b (listdir root item) item)
         then \<lparr>cache_after = fst (cleanup_local_files os root item), cleanup_invoked = True\<rparr>
         else \<lparr>cache_after = root, cleanup_invoked = False\<rparr>)
      else \<lparr>cache_after = root, cleanup_invoked = False\<rparr>)"

section \<open>The default cache directory\<close>

datatype os_error = OSError

text \<open>
  \<^verbatim>\<open>os.path.join\<close> of a path and a relative component, for the separator of the
  platform.
\<close>

definition os_path_join :: "char \<Rightarrow> string \<Rightarrow> string \<Rightarrow> string" where
  "os_path_join sep a b = (if a = [] \<or> last a = sep then a @ b else a @ [sep] @ b)"

definition user_cache_dir :: "char \<Rightarrow> string \<Rightarrow> string" where
  "user_cache_dir sep home =
     os_path_join sep (os_path_join sep (os_path_join sep (os_path_join sep home
       ''AppData'') ''Local'') ''VideoSliceUploader'') ''Cache''"

definition cwd_cache_dir :: "char \<Rightarrow> string \<Rightarrow> string" where
  "cwd_cache_dir sep cwd = os_path_join sep cwd ''cache''"

text \<open>
  \<^verbatim>\<open>set_default_cache_path\<close>. \<open>exists\<close> is \<^verbatim>\<open>os.path.exists\<close>, \<open>makedirs_ok\<close> tells
  whether \<^verbatim>\<open>os.makedirs(path, exist_ok=True)\<close> returns (it raises \<^verbatim>\<open>OSError\<close>
  otherwise), \<open>home\<close> is \<^verbatim>\<open>os.path.expanduser("~")\<close> and \<open>cwd\<close> is \<^verbatim>\<open>os.getcwd()\<close>.
  The \<^verbatim>\<open>except\<close> branch has no handler of its own: what raises there leaves the function.
\<close>

definition set_default_cache_path ::
  "(string \<Rightarrow> bool) \<Rightarrow> (string \<Rightarrow> bool) \<Rightarrow> char \<Rightarrow> string \<Rightarrow> string \<Rightarrow> config \<Rightarrow> os_error + config" where
  "set_default_cache_path exists makedirs_ok sep home cwd c =
     (let cache_dir = user_cache_dir sep home
      in if exists cache_dir \<or> makedirs_ok cache_dir then Inr (c\<lparr>cache_path := cache_dir\<rparr>)
         else
           (let cache_dir = cwd_cache_dir sep cwd
            in if exists cache_dir \<or> makedirs_ok cache_dir then Inr (c\<lparr>cache_path := cache_dir\<rparr>)
               else Inl OSError))"

section \<open>The keep-alive thread of an FTP session\<close>

text \<open>
  \<^verbatim>\<open>connect_ftp\<close> starts a daemon thread that runs
  \<^verbatim>\<open>while True: time.sleep(30); keep_alive()\<close>, where \<^verbatim>\<open>keep_alive\<close> calls
  \<^verbatim>\<open>ftp.voidcmd('NOOP')\<close> and swallows every exception. The thread object is a local
  variable of \<^verbatim>\<open>connect_ftp\<close>; the only thing the rest of the program does to the
  session is \<^verbatim>\<open>ftp.quit()\<close> at the end of \<^verbatim>\<open>upload_to_ftp\<close>. Time is abstracted to the
  order of two events: the thread wakes from its sleep, the uploader quits the session.
  \<open>noop_calls\<close> records each \<^verbatim>\<open>voidcmd('NOOP')\<close> call with whether the session was open.
\<close>

datatype session_event = KeepAliveWakes | Quit

record ftp_session =
  session_open :: bool
  noop_calls :: "bool list"

definition connected_session :: ftp_session where
  "connected_session = \<lparr>session_open = True, noop_calls = []\<rparr>"

fun session_step :: "ftp_session \<Rightarrow> session_event \<Rightarrow> ftp_session" where
  "session_step s KeepAliveWakes = s\<lparr>noop_calls := noop_calls s @ [session_open s]\<rparr>"
| "session_step s Quit = s\<lparr>session_open := False\<rparr>"

definition session_run :: "ftp_session \<Rightarrow> session_event list \<Rightarrow> ftp_session" where
  "session_run s events = foldl session_step s events"

section \<open>Loading the configuration document\<close>

text \<open>
  A value as \<^verbatim>\<open>json.load\<close> returns it: \<^verbatim>\<open>None\<close>, a boolean, a number (kept as its
  literal), a string, a list or a dict. The document is the top-level dict, by key.
\<close>

datatype json = JNull | JBool bool | JNumber string | JString string
  | JArray "json list" | JObject "(string \<times> json) list"








text \<open>
  A statement of the \<^verbatim>\<open>try\<close> block changes the variables and either returns (\<open>True\<close>) or
  raises (\<open>False\<close>); what it changed before it raised stays changed. A block runs its
  statements in order up to the first that raises.
\<close>

type_synonym load_step = "config \<Rightarrow> bool \<times> config"


text \<open>\<^verbatim>\<open>if key in config_data: var.set(config_data[key])\<close>\<close>

definition set_var :: "(json \<Rightarrow> 'a option) \<Rightarrow> json option \<Rightarrow> ('a \<Rightarrow> config \<Rightarrow> config) \<Rightarrow> load_step" where
  "set_var convert entry setter c =
     (case entry of
        None \<Rightarrow> (True, c)
      | Some v \<Rightarrow> (case convert v of None \<Rightarrow> (False, c) | Some x \<Rightarrow> (True, setter x c)))"












section \<open>The aggregate status of the specification\<close>

text \<open>
  The code returns a boolean. The specification names three results of a job, from the
  number of files attempted and the number that succeeded; this definition follows its
  words, to compare the boolean with.
\<close>

datatype upload_status = Success | PartialFailure | Failure

definition spec_aggregate_status :: "nat \<Rightarrow> nat \<Rightarrow> upload_status" where
  "spec_aggregate_status attempted succeeded =
     (if succeeded = attempted \<and> 0 < attempted then Success
      else if succeeded = 0 then Failure
      else PartialFailure)"



section \<open>Observations and scripted examples\<close>

text \<open>The attempt numbers logged for one file of a job, in order.\<close>

definition attempts_of :: "string \<Rightarrow> upload_result \<Rightarrow> nat list" where
  "attempts_of filename r =
     map (\<lambda>e. snd (snd e)) (filter (\<lambda>e. fst e = filename) (attempts_log r))"

text \<open>
  An attempt of the object-storage loop gets through when \<^verbatim>\<open>put_file_v2\<close> answers with the
  key and the speed computation that follows does not divide by zero.
\<close>

definition got_through :: "qiniu_outcome \<Rightarrow> bool" where
  "got_through outcome =
     (case outcome of
        PutOk file_size upload_time_zero \<Rightarrow> file_size = 0 \<or> \<not> upload_time_zero
      | PutRejected \<Rightarrow> False
      | PutRaised msg \<Rightarrow> False)"

text \<open>A filled-in configuration with object storage selected.\<close>

definition demo_config :: config where
  "demo_config = \<lparr>segment_duration = ''3'', quality_crf = ''23'', server_ip = ''192.0.2.1'',
     server_port = ''21'', username = ''u'', password = ''p'', upload_path = ''/www/video/'',
     use_ssl = False, qiniu_access_key = ''ak'', qiniu_secret_key = ''sk'',
     qiniu_bucket_name = ''bucket'', qiniu_domain = [], use_qiniu = True, cache_path = ''cache''\<rparr>"

text \<open>A backend that connects and answers transfers from the two given scripts.\<close>

definition scripted_backend ::
  "(string \<Rightarrow> nat \<Rightarrow> qiniu_outcome) \<Rightarrow> (string \<Rightarrow> nat \<Rightarrow> stor_outcome) \<Rightarrow> backend" where
  "scripted_backend put stor = \<lparr>QINIU_AVAILABLE = True, put_file_v2 = put, connect_ftp_ok = True,
     create_remote_directory_ok = (\<lambda>d. True), ftp_pwd = (\<lambda>f. None), storbinary = stor,
     ftp_quit_ok = True\<rparr>"

text \<open>The job directory \<^verbatim>\<open>movie\<close> of the specification's scenarios.\<close>

definition movie_files :: "string list" where
  "movie_files = [''segment_000.ts'', ''segment_001.ts'', ''playlist.m3u8'']"

definition only_first_segment :: "string \<Rightarrow> nat \<Rightarrow> qiniu_outcome" where
  "only_first_segment key a =
     (if key = ''movie/segment_000.ts'' then PutOk 1048576 False else PutRejected)"

text \<open>Scripts in which every attempt raises the same exception.\<close>

definition put_always_raises :: "string \<Rightarrow> string \<Rightarrow> nat \<Rightarrow> qiniu_outcome" where
  "put_always_raises msg key a = PutRaised msg"

text \<open>
  An FTP script for the job \<^verbatim>\<open>movie\<close> under \<^verbatim>\<open>/www/video/\<close>: the first segment always
  times out, the second is always refused, the manifest gets through.
\<close>

definition ftp_script :: "string \<Rightarrow> nat \<Rightarrow> stor_outcome" where
  "ftp_script remote_file a =
     (if remote_file = ''www/video/movie/segment_000.ts''
        then StorRaised ''[WinError 10060] connection attempt failed''
      else if remote_file = ''www/video/movie/segment_001.ts''
        then StorRaised ''553 Could not create file.''
      else StorOk 4096 False)"

text \<open>An operating system on which every deletion goes through.\<close>

definition willing_os :: local_os where
  "willing_os = \<lparr>os_remove_ok = (\<lambda>f. True), os_rmdir_ok = True\<rparr>"

text \<open>The cache holding the job \<^verbatim>\<open>movie\<close> alone, and a cache whose job has no media files.\<close>

definition movie_cache :: cache_root where
  "movie_cache = [(''movie'', DirNode [(''segment_000.ts'', True), (''segment_001.ts'', True),
     (''playlist.m3u8'', True)])]"

definition notes_cache :: cache_root where
  "notes_cache = [(''notes'', DirNode [(''readme.txt'', True)])]"

definition two_manifests :: node where
  "two_manifests = DirNode [(''segment_000.ts'', True), (''playlist.m3u8'', True),
     (''backup.m3u8'', True)]"

definition put_always_ok :: "string \<Rightarrow> nat \<Rightarrow> qiniu_outcome" where
  "put_always_ok key a = PutOk 1048576 False"

definition stor_always_ok :: "string \<Rightarrow> nat \<Rightarrow> stor_outcome" where
  "stor_always_ok remote_file a = StorOk 1048576 False"

text \<open>A clock that does not advance between the two readings around a transfer.\<close>

definition put_ok_frozen_clock :: "string \<Rightarrow> nat \<Rightarrow> qiniu_outcome" where
  "put_ok_frozen_clock key a = PutOk 1048576 True"

text \<open>A machine on which no directory exists and none can be created.\<close>

definition nothing_exists :: "string \<Rightarrow> bool" where
  "nothing_exists path = False"

definition read_only_disk :: "string \<Rightarrow> bool" where
  "read_only_disk path = False"

text \<open>A machine on which only the working directory is writable.\<close>

definition only_cwd_writable :: "string \<Rightarrow> bool" where
  "only_cwd_writable path = (path = ''/srv/app/cache'')"





section \<open>The retry loops and the file loops\<close>

lemma attempt_range_eq: "attempt_range = [1, 2, 3]"
  by (simp add: attempt_range_def max_retries_def upt_rec)

lemma got_through_iff:
  "got_through outcome \<longleftrightarrow> (\<exists>n z. outcome = PutOk n z \<and> (n = 0 \<or> \<not> z))"
  by (cases outcome) (simp_all add: got_through_def)


lemma qiniu_retry_got_through:
  "fst (qiniu_retry put as) = (\<exists>a \<in> set as. got_through (put a))"
  by (induction as) (auto simp: got_through_def split: qiniu_outcome.splits prod.splits)


lemma qiniu_retry_success:
  "fst (qiniu_retry put as) =
     (\<exists>a \<in> set as. \<exists>n z. put a = PutOk n z \<and> (n = 0 \<or> \<not> z))"
  by (simp only: qiniu_retry_got_through got_through_iff)




text \<open>\<^verbatim>\<open>files_uploaded\<close> counts the eligible files that one of the attempts got through.\<close>

lemma qiniu_files_count:
  "fst (qiniu_files b vn names) =
     length (filter (\<lambda>f. eligible f \<and> (\<exists>a \<in> set attempt_range.
         \<exists>n z. put_file_v2 b (qiniu_key vn f) a = PutOk n z \<and> (n = 0 \<or> \<not> z))) names)"
proof (induction names)
  case Nil
  show ?case by simp
next
  case (Cons f fs)
  show ?case
  proof (cases "eligible f")
    case False
    with Cons show ?thesis by simp
  next
    case True
    have "fst (qiniu_retry (put_file_v2 b (qiniu_key vn f)) attempt_range)
          = (\<exists>a \<in> set attempt_range.
         \<exists>n z. put_file_v2 b (qiniu_key vn f) a = PutOk n z \<and> (n = 0 \<or> \<not> z))"
      by (rule qiniu_retry_success)
    with True Cons show ?thesis
      by (auto simp: Let_def split: prod.splits)
  qed
qed

lemma qiniu_files_le: "fst (qiniu_files b vn names) \<le> length (filter eligible names)"
proof -
  have "length (filter (\<lambda>f. eligible f \<and> (\<exists>a \<in> set attempt_range.
         \<exists>n z. put_file_v2 b (qiniu_key vn f) a = PutOk n z \<and> (n = 0 \<or> \<not> z))) names)
        \<le> length (filter eligible names)"
    by (induction names) auto
  then show ?thesis by (simp add: qiniu_files_count)
qed

lemma qiniu_files_none_eligible:
  "\<forall>f \<in> set names. \<not> eligible f \<Longrightarrow> qiniu_files b vn names = (0, [])"
  by (induction names) auto





text \<open>The two upload functions once they are past their early returns.\<close>

lemma upload_to_qiniu_ready:
  assumes "QINIU_AVAILABLE b" "qiniu_access_key c \<noteq> []" "qiniu_secret_key c \<noteq> []"
    "qiniu_bucket_name c \<noteq> []"
  shows "upload_to_qiniu c b (Some names) vn =
    \<lparr>result = (fst (qiniu_files b vn names) = length (filter eligible names)
                \<or> 0 < fst (qiniu_files b vn names)),
     files_uploaded = fst (qiniu_files b vn names),
     total_files = length (filter eligible names),
     attempts_log = snd (qiniu_files b vn names)\<rparr>"
  using assms by (simp add: upload_to_qiniu_def Let_def split: prod.splits)


section \<open>The result of an upload job\<close>

text \<open>
  C1, as stated, fails: in the object-storage upload of the job \<^verbatim>\<open>movie\<close> where only
  \<^verbatim>\<open>segment_000.ts\<close> gets through, one file of three succeeds (the status of the
  specification is PartialFailure) and \<^verbatim>\<open>upload_to_qiniu\<close> returns \<^verbatim>\<open>True\<close>.
\<close>

theorem qiniu_partial_failure_returns_true:
  "result (upload_to_qiniu demo_config (scripted_backend only_first_segment stor_always_ok)
             (Some movie_files) ''movie'')
   \<and> total_files (upload_to_qiniu demo_config (scripted_backend only_first_segment stor_always_ok)
             (Some movie_files) ''movie'') = 3
   \<and> files_uploaded (upload_to_qiniu demo_config (scripted_backend only_first_segment stor_always_ok)
             (Some movie_files) ''movie'') = 1
   \<and> spec_aggregate_status 3 1 = PartialFailure"
  by (simp add: upload_to_qiniu_def demo_config_def scripted_backend_def movie_files_def
      only_first_segment_def eligible_def endswith_def qiniu_key_def attempt_range_eq
      spec_aggregate_status_def Let_def)

text \<open>
  C1, amended: once \<^verbatim>\<open>upload_to_qiniu\<close> is past the SDK and credential checks, the number
  attempted is the number of eligible files, the number succeeded is the number of eligible
  files for which one of the attempts 1, 2, 3 got through (\<^verbatim>\<open>put_file_v2\<close> answered with
  the key, and the file is empty or the elapsed time is not zero, so that the speed
  computation of the success branch does not raise), and the function returns
  \<^verbatim>\<open>True\<close> exactly when the status of the specification is not Failure or nothing was
  eligible; so it returns \<^verbatim>\<open>False\<close> exactly when nothing succeeded although something was
  attempted.
\<close>

theorem qiniu_result_law:
  assumes "QINIU_AVAILABLE b" "qiniu_access_key c \<noteq> []" "qiniu_secret_key c \<noteq> []"
    "qiniu_bucket_name c \<noteq> []"
  shows "total_files (upload_to_qiniu c b (Some names) vn) = length (filter eligible names)
    \<and> files_uploaded (upload_to_qiniu c b (Some names) vn) =
        length (filter (\<lambda>f. eligible f \<and> (\<exists>a \<in> {1, 2, 3}.
            \<exists>n z. put_file_v2 b (qiniu_key vn f) a = PutOk n z \<and> (n = 0 \<or> \<not> z))) names)
    \<and> files_uploaded (upload_to_qiniu c b (Some names) vn) \<le> total_files (upload_to_qiniu c b (Some names) vn)
    \<and> (result (upload_to_qiniu c b (Some names) vn) \<longleftrightarrow>
         spec_aggregate_status (total_files (upload_to_qiniu c b (Some names) vn))
           (files_uploaded (upload_to_qiniu c b (Some names) vn)) \<noteq> Failure
         \<or> total_files (upload_to_qiniu c b (Some names) vn) = 0)"
proof -
  let ?n = "fst (qiniu_files b vn names)" and ?t = "length (filter eligible names)"
  have le: "?n \<le> ?t" by (rule qiniu_files_le)
  have cnt: "?n = length (filter (\<lambda>f. eligible f \<and> (\<exists>a \<in> {1, 2, 3}.
            \<exists>n z. put_file_v2 b (qiniu_key vn f) a = PutOk n z \<and> (n = 0 \<or> \<not> z))) names)"
    using qiniu_files_count [of b vn names] by (simp add: attempt_range_eq)
  have law: "(?n = ?t \<or> 0 < ?n) \<longleftrightarrow> (spec_aggregate_status ?t ?n \<noteq> Failure \<or> ?t = 0)"
    using le by (auto simp: spec_aggregate_status_def)
  show ?thesis
    unfolding upload_to_qiniu_ready [OF assms] using le cnt law by simp
qed

theorem qiniu_result_law_witness:
  "QINIU_AVAILABLE (scripted_backend only_first_segment stor_always_ok)
   \<and> qiniu_access_key demo_config \<noteq> [] \<and> qiniu_secret_key demo_config \<noteq> []
   \<and> qiniu_bucket_name demo_config \<noteq> []
   \<and> files_uploaded (upload_to_qiniu demo_config (scripted_backend only_first_segment stor_always_ok)
        (Some movie_files) ''movie'') = 1
   \<and> total_files (upload_to_qiniu demo_config (scripted_backend only_first_segment stor_always_ok)
        (Some movie_files) ''movie'') = 3
   \<and> result (upload_to_qiniu demo_config (scripted_backend only_first_segment stor_always_ok)
        (Some movie_files) ''movie'')"
proof -
  let ?b = "scripted_backend only_first_segment stor_always_ok"
  let ?r = "upload_to_qiniu demo_config ?b (Some movie_files) ''movie''"
  have h1: "QINIU_AVAILABLE ?b" by (simp add: scripted_backend_def)
  have h2: "qiniu_access_key demo_config \<noteq> []" by (simp add: demo_config_def)
  have h3: "qiniu_secret_key demo_config \<noteq> []" by (simp add: demo_config_def)
  have h4: "qiniu_bucket_name demo_config \<noteq> []" by (simp add: demo_config_def)
  have ev: "put_file_v2 ?b = only_first_segment" by (simp add: scripted_backend_def)
  note law = qiniu_result_law [OF h1 h2 h3 h4, of movie_files "''movie''"]
  have tot: "total_files ?r = 3"
    using law [THEN conjunct1] by (simp add: movie_files_def eligible_def endswith_def)
  have "files_uploaded ?r =
    length (filter (\<lambda>f. eligible f \<and> (\<exists>a \<in> {1, 2, 3}.
        \<exists>n z. only_first_segment (qiniu_key ''movie'' f) a = PutOk n z \<and> (n = 0 \<or> \<not> z))) movie_files)"
    using law [THEN conjunct2, THEN conjunct1] by (simp only: ev)
  then have "files_uploaded ?r =
    length (filter (\<lambda>f. eligible f \<and> (\<exists>a \<in> {1, 2, 3}.
        got_through (only_first_segment (qiniu_key ''movie'' f) a))) movie_files)"
    by (simp only: got_through_iff)
  then have fu: "files_uploaded ?r = 1"
    by (simp add: movie_files_def only_first_segment_def eligible_def endswith_def qiniu_key_def
        got_through_def ex_disj_distrib)
  have "result ?r \<longleftrightarrow> spec_aggregate_status (total_files ?r) (files_uploaded ?r) \<noteq> Failure \<or> total_files ?r = 0"
    by (rule law [THEN conjunct2, THEN conjunct2, THEN conjunct2])
  then have res: "result ?r"
    by (simp add: tot fu spec_aggregate_status_def)
  show ?thesis using h1 h2 h3 h4 tot fu res by blast
qed

text \<open>
  The FTP upload does not look at its counters: when every transfer is refused it still
  returns \<^verbatim>\<open>True\<close>, with none of three files uploaded.
\<close>

lemma ftp_all_refused_returns_true:
  "result (upload_to_ftp demo_config
      (scripted_backend put_always_ok (\<lambda>f a. StorRaised ''550 Permission denied''))
      (Some movie_files) ''movie'')
   \<and> files_uploaded (upload_to_ftp demo_config
      (scripted_backend put_always_ok (\<lambda>f a. StorRaised ''550 Permission denied''))
      (Some movie_files) ''movie'') = 0
   \<and> total_files (upload_to_ftp demo_config
      (scripted_backend put_always_ok (\<lambda>f a. StorRaised ''550 Permission denied''))
      (Some movie_files) ''movie'') = 3"
  by (simp add: upload_to_ftp_def demo_config_def scripted_backend_def movie_files_def
      eligible_def endswith_def ftp_remote_file_def attempt_range_eq Let_def)

text \<open>
  When the clock does not advance, every answer with the key ends in the division by
  zero: each file is sent three times, none is counted and the upload returns \<^verbatim>\<open>False\<close>.
\<close>

lemma frozen_clock_counts_nothing:
  "\<not> result (upload_to_qiniu demo_config (scripted_backend put_ok_frozen_clock stor_always_ok)
      (Some movie_files) ''movie'')
   \<and> files_uploaded (upload_to_qiniu demo_config (scripted_backend put_ok_frozen_clock stor_always_ok)
      (Some movie_files) ''movie'') = 0
   \<and> attempts_of ''playlist.m3u8''
        (upload_to_qiniu demo_config (scripted_backend put_ok_frozen_clock stor_always_ok)
           (Some movie_files) ''movie'') = [1, 2, 3]"
  by (simp add: upload_to_qiniu_def demo_config_def scripted_backend_def movie_files_def
      put_ok_frozen_clock_def eligible_def endswith_def qiniu_key_def attempt_range_eq
      attempts_of_def Let_def)

section \<open>The retry bound\<close>




section \<open>Connection failure\<close>

text \<open>
  C5: if the connection cannot be set up (\<^verbatim>\<open>connect_ftp\<close> returns \<^verbatim>\<open>None\<close>; or, for
  object storage, the SDK is missing or one of access key, secret key and bucket name is
  empty), the upload returns \<^verbatim>\<open>False\<close>, no transfer attempt is logged and both counters
  are zero.
\<close>

theorem connect_failure_aborts:
  assumes "(\<not> use_qiniu c \<and> \<not> connect_ftp_ok b)
    \<or> (use_qiniu c \<and> (\<not> QINIU_AVAILABLE b \<or> qiniu_access_key c = [] \<or> qiniu_secret_key c = []
          \<or> qiniu_bucket_name c = []))"
  shows "\<not> result (upload_to_server c b listing vn)
    \<and> attempts_log (upload_to_server c b listing vn) = []
    \<and> files_uploaded (upload_to_server c b listing vn) = 0
    \<and> total_files (upload_to_server c b listing vn) = 0"
proof -
  have "upload_to_server c b listing vn = early_return False"
    using assms by (auto simp: upload_to_server_def upload_to_ftp_def upload_to_qiniu_def)
  then show ?thesis by (simp add: early_return_def)
qed

theorem connect_failure_aborts_witness:
  "\<not> use_qiniu (demo_config\<lparr>use_qiniu := False\<rparr>)
   \<and> \<not> connect_ftp_ok ((scripted_backend only_first_segment ftp_script)\<lparr>connect_ftp_ok := False\<rparr>)
   \<and> \<not> result (upload_to_server (demo_config\<lparr>use_qiniu := False\<rparr>)
          ((scripted_backend only_first_segment ftp_script)\<lparr>connect_ftp_ok := False\<rparr>)
          (Some movie_files) ''movie'')
   \<and> attempts_log (upload_to_server (demo_config\<lparr>use_qiniu := False\<rparr>)
          ((scripted_backend only_first_segment ftp_script)\<lparr>connect_ftp_ok := False\<rparr>)
          (Some movie_files) ''movie'') = []
   \<and> use_qiniu (demo_config\<lparr>qiniu_secret_key := []\<rparr>)
   \<and> qiniu_secret_key (demo_config\<lparr>qiniu_secret_key := []\<rparr>) = []
   \<and> \<not> result (upload_to_server (demo_config\<lparr>qiniu_secret_key := []\<rparr>)
          (scripted_backend only_first_segment ftp_script) (Some movie_files) ''movie'')
   \<and> attempts_log (upload_to_server (demo_config\<lparr>qiniu_secret_key := []\<rparr>)
          (scripted_backend only_first_segment ftp_script) (Some movie_files) ''movie'') = []"
proof -
  let ?c1 = "demo_config\<lparr>use_qiniu := False\<rparr>"
  let ?b1 = "(scripted_backend only_first_segment ftp_script)\<lparr>connect_ftp_ok := False\<rparr>"
  let ?c2 = "demo_config\<lparr>qiniu_secret_key := []\<rparr>"
  let ?b2 = "scripted_backend only_first_segment ftp_script"
  have h1: "\<not> use_qiniu ?c1 \<and> \<not> connect_ftp_ok ?b1" by simp
  have h2: "use_qiniu ?c2 \<and> qiniu_secret_key ?c2 = []" by (simp add: demo_config_def)
  from h1 have "(\<not> use_qiniu ?c1 \<and> \<not> connect_ftp_ok ?b1)
    \<or> (use_qiniu ?c1 \<and> (\<not> QINIU_AVAILABLE ?b1 \<or> qiniu_access_key ?c1 = [] \<or> qiniu_secret_key ?c1 = []
          \<or> qiniu_bucket_name ?c1 = []))" by blast
  note r1 = connect_failure_aborts [OF this, of "Some movie_files" "''movie''"]
  from h2 have "(\<not> use_qiniu ?c2 \<and> \<not> connect_ftp_ok ?b2)
    \<or> (use_qiniu ?c2 \<and> (\<not> QINIU_AVAILABLE ?b2 \<or> qiniu_access_key ?c2 = [] \<or> qiniu_secret_key ?c2 = []
          \<or> qiniu_bucket_name ?c2 = []))" by blast
  note r2 = connect_failure_aborts [OF this, of "Some movie_files" "''movie''"]
  show ?thesis using h1 h2 r1 r2 by blast
qed

section \<open>The cache scan\<close>

lemma cache_files_Cons:
  "cache_files ((item, nd) # rest) =
     (case nd of
        FileNode \<Rightarrow> cache_files rest
      | DirNode entries \<Rightarrow>
          (if (\<exists>f \<in> set (map fst entries). endswith f ''.ts'')
               \<and> (\<exists>f \<in> set (map fst entries). endswith f ''.m3u8'')
           then (item, length (filter (\<lambda>f. endswith f ''.ts'') (map fst entries)),
                 length (filter (\<lambda>f. endswith f ''.m3u8'') (map fst entries))) # cache_files rest
           else cache_files rest))"
  by (cases nd) (auto simp: Let_def filter_empty_conv)

lemma cache_files_names: "fst ` set (cache_files root) \<subseteq> fst ` set root"
proof (induction root)
  case Nil
  show ?case by simp
next
  case (Cons e rest)
  obtain item nd where e: "e = (item, nd)" by (cases e)
  from Cons show ?case
    unfolding e cache_files_Cons by (cases nd) auto
qed

lemma cache_files_iff:
  "item \<in> fst ` set (cache_files root) \<longleftrightarrow>
     (\<exists>entries. (item, DirNode entries) \<in> set root
        \<and> (\<exists>f \<in> set (map fst entries). endswith f ''.ts'')
        \<and> (\<exists>f \<in> set (map fst entries). endswith f ''.m3u8''))"
proof (induction root)
  case Nil
  show ?case by simp
next
  case (Cons e rest)
  obtain item' nd where e: "e = (item', nd)" by (cases e)
  show ?case
  proof (cases nd)
    case FileNode
    with Cons show ?thesis unfolding e cache_files_Cons by auto
  next
    case (DirNode entries)
    with Cons show ?thesis unfolding e cache_files_Cons by auto
  qed
qed

text \<open>
  C4, as stated, fails: a job directory with one segment and two manifests is listed by
  the scan and accepted by \<^verbatim>\<open>validate_cache_directory\<close>, though it does not have exactly
  one manifest.
\<close>

theorem two_manifests_accepted:
  "cache_files [(''movie'', two_manifests)] = [(''movie'', 1, 2)]
   \<and> validate_cache_directory (Some two_manifests)
   \<and> (case two_manifests of DirNode entries \<Rightarrow>
         length (filter (\<lambda>f. endswith f ''.m3u8'') (map fst entries)) \<noteq> 1
       | FileNode \<Rightarrow> False)"
  by (simp add: two_manifests_def validate_cache_directory_def endswith_def)

text \<open>
  C4, amended: an entry of the cache root is in the scan exactly when it is a directory
  holding at least one name that ends in \<^verbatim>\<open>.ts\<close> and at least one name that ends in
  \<^verbatim>\<open>.m3u8\<close>; \<^verbatim>\<open>validate_cache_directory\<close> accepts exactly such directories. Everything
  else (a plain file, a missing path, a directory without segment or without manifest) is
  left out.
\<close>

theorem scan_and_validate_law:
  "(item \<in> fst ` set (cache_files root) \<longleftrightarrow>
     (\<exists>entries. (item, DirNode entries) \<in> set root
        \<and> (\<exists>f \<in> set (map fst entries). endswith f ''.ts'')
        \<and> (\<exists>f \<in> set (map fst entries). endswith f ''.m3u8'')))
   \<and> (validate_cache_directory directory \<longleftrightarrow>
     (\<exists>entries. directory = Some (DirNode entries)
        \<and> (\<exists>f \<in> set (map fst entries). endswith f ''.ts'')
        \<and> (\<exists>f \<in> set (map fst entries). endswith f ''.m3u8'')))"
proof
  show "item \<in> fst ` set (cache_files root) \<longleftrightarrow>
     (\<exists>entries. (item, DirNode entries) \<in> set root
        \<and> (\<exists>f \<in> set (map fst entries). endswith f ''.ts'')
        \<and> (\<exists>f \<in> set (map fst entries). endswith f ''.m3u8''))"
    by (rule cache_files_iff)
next
  show "validate_cache_directory directory \<longleftrightarrow>
     (\<exists>entries. directory = Some (DirNode entries)
        \<and> (\<exists>f \<in> set (map fst entries). endswith f ''.ts'')
        \<and> (\<exists>f \<in> set (map fst entries). endswith f ''.m3u8''))"
    by (auto simp: validate_cache_directory_def Let_def filter_empty_conv
        split: option.splits node.splits)
qed

theorem scan_and_validate_law_witness:
  "''movie'' \<in> fst ` set (cache_files movie_cache)
   \<and> ''notes'' \<notin> fst ` set (cache_files notes_cache)
   \<and> validate_cache_directory (Some two_manifests)
   \<and> \<not> validate_cache_directory (Some FileNode)"
proof -
  have 1: "''movie'' \<in> fst ` set (cache_files movie_cache)"
    unfolding scan_and_validate_law [THEN conjunct1]
    by (simp add: movie_cache_def endswith_def)
  have 2: "''notes'' \<notin> fst ` set (cache_files notes_cache)"
    unfolding scan_and_validate_law [THEN conjunct1]
    by (simp add: notes_cache_def endswith_def)
  have 3: "validate_cache_directory (Some two_manifests)"
    unfolding scan_and_validate_law [THEN conjunct2]
    by (simp add: two_manifests_def endswith_def)
  have 4: "\<not> validate_cache_directory (Some FileNode)"
    unfolding scan_and_validate_law [THEN conjunct2]
    by simp
  show ?thesis using 1 2 3 4 by blast
qed

section \<open>Cleanup after an upload\<close>

lemma cleanup_done_removes:
  "snd (cleanup_local_files os root item) \<Longrightarrow>
     fst (cleanup_local_files os root item) = filter (\<lambda>e. fst e \<noteq> item) root"
  by (auto simp: cleanup_local_files_def Let_def split: option.splits node.splits prod.splits if_splits)

lemma cleanup_done_not_scanned:
  assumes "snd (cleanup_local_files os root item)"
  shows "item \<notin> fst ` set (cache_files (fst (cleanup_local_files os root item)))"
proof -
  have "item \<notin> fst ` set (filter (\<lambda>e. fst e \<noteq> item) root)" by auto
  with cache_files_names [of "filter (\<lambda>e. fst e \<noteq> item) root"]
  have "item \<notin> fst ` set (cache_files (filter (\<lambda>e. fst e \<noteq> item) root))" by blast
  then show ?thesis by (simp add: cleanup_done_removes [OF assms])
qed

text \<open>
  C2, as stated, fails: in the object-storage job \<^verbatim>\<open>movie\<close> where only
  \<^verbatim>\<open>segment_000.ts\<close> gets through (one of three, PartialFailure), \<^verbatim>\<open>process_video\<close>
  invokes the cleanup and the job directory is deleted.
\<close>

theorem partial_failure_cleans_up:
  "cleanup_invoked (process_video demo_config (scripted_backend only_first_segment stor_always_ok)
      willing_os True movie_cache ''movie'')
   \<and> cache_after (process_video demo_config (scripted_backend only_first_segment stor_always_ok)
      willing_os True movie_cache ''movie'') = []
   \<and> spec_aggregate_status
       (total_files (upload_to_server demo_config (scripted_backend only_first_segment stor_always_ok)
          (listdir movie_cache ''movie'') ''movie''))
       (files_uploaded (upload_to_server demo_config (scripted_backend only_first_segment stor_always_ok)
          (listdir movie_cache ''movie'') ''movie'')) = PartialFailure"
  by (simp add: process_video_def upload_to_server_def upload_to_qiniu_def demo_config_def
      scripted_backend_def movie_cache_def listdir_def only_first_segment_def eligible_def
      endswith_def qiniu_key_def attempt_range_eq spec_aggregate_status_def Let_def
      cleanup_local_files_def willing_os_def)

text \<open>
  C2, amended: \<^verbatim>\<open>process_video\<close> invokes \<^verbatim>\<open>cleanup_local_files\<close> exactly when the
  transcoder succeeded and the upload returned \<^verbatim>\<open>True\<close>; when it does not invoke it the
  cache is left as it was (so the scan lists what it listed before); and when the cleanup
  runs to its end the job directory is not in a subsequent scan.
\<close>

theorem cleanup_law:
  "(cleanup_invoked (process_video c b os execute_ffmpeg_ok root item) \<longleftrightarrow>
      execute_ffmpeg_ok \<and> result (upload_to_server c b (listdir root item) item))
   \<and> (\<not> cleanup_invoked (process_video c b os execute_ffmpeg_ok root item) \<longrightarrow>
        cache_after (process_video c b os execute_ffmpeg_ok root item) = root
        \<and> cache_files (cache_after (process_video c b os execute_ffmpeg_ok root item)) = cache_files root)
   \<and> (cleanup_invoked (process_video c b os execute_ffmpeg_ok root item)
        \<and> snd (cleanup_local_files os root item) \<longrightarrow>
        item \<notin> fst ` set (cache_files (cache_after (process_video c b os execute_ffmpeg_ok root item))))"
proof (intro conjI impI)
  show "cleanup_invoked (process_video c b os execute_ffmpeg_ok root item) \<longleftrightarrow>
      execute_ffmpeg_ok \<and> result (upload_to_server c b (listdir root item) item)"
    by (simp add: process_video_def)
next
  assume "\<not> cleanup_invoked (process_video c b os execute_ffmpeg_ok root item)"
  then show "cache_after (process_video c b os execute_ffmpeg_ok root item) = root"
    by (simp add: process_video_def split: if_splits)
  then show "cache_files (cache_after (process_video c b os execute_ffmpeg_ok root item)) = cache_files root"
    by simp
next
  assume a: "cleanup_invoked (process_video c b os execute_ffmpeg_ok root item)
        \<and> snd (cleanup_local_files os root item)"
  then have "cache_after (process_video c b os execute_ffmpeg_ok root item)
      = fst (cleanup_local_files os root item)"
    by (simp add: process_video_def split: if_splits)
  with a cleanup_done_not_scanned [of os root item]
  show "item \<notin> fst ` set (cache_files (cache_after (process_video c b os execute_ffmpeg_ok root item)))"
    by simp
qed

theorem cleanup_law_witness:
  "cleanup_invoked (process_video demo_config (scripted_backend put_always_ok stor_always_ok)
      willing_os True movie_cache ''movie'')
   \<and> snd (cleanup_local_files willing_os movie_cache ''movie'')
   \<and> ''movie'' \<notin> fst ` set (cache_files (cache_after
        (process_video demo_config (scripted_backend put_always_ok stor_always_ok)
           willing_os True movie_cache ''movie'')))
   \<and> \<not> cleanup_invoked (process_video demo_config
        (scripted_backend (put_always_raises ''timeout'') stor_always_ok)
        willing_os True movie_cache ''movie'')
   \<and> cache_files (cache_after (process_video demo_config
        (scripted_backend (put_always_raises ''timeout'') stor_always_ok)
        willing_os True movie_cache ''movie'')) = [(''movie'', 2, 1)]"
proof -
  let ?ok = "scripted_backend put_always_ok stor_always_ok"
  let ?bad = "scripted_backend (put_always_raises ''timeout'') stor_always_ok"
  have up: "result (upload_to_server demo_config ?ok (listdir movie_cache ''movie'') ''movie'')"
    by (simp add: upload_to_server_def upload_to_qiniu_def demo_config_def
      scripted_backend_def movie_cache_def listdir_def put_always_ok_def eligible_def
      endswith_def qiniu_key_def attempt_range_eq Let_def)
  have down: "\<not> result (upload_to_server demo_config ?bad (listdir movie_cache ''movie'') ''movie'')"
    by (simp add: upload_to_server_def upload_to_qiniu_def demo_config_def
      scripted_backend_def movie_cache_def listdir_def put_always_raises_def eligible_def
      endswith_def qiniu_key_def attempt_range_eq Let_def)
  have fin: "snd (cleanup_local_files willing_os movie_cache ''movie'')"
    by (simp add: cleanup_local_files_def willing_os_def movie_cache_def)
  have scan: "cache_files movie_cache = [(''movie'', 2, 1)]"
    by (simp add: movie_cache_def endswith_def)
  note law1 = cleanup_law [of demo_config ?ok willing_os True movie_cache "''movie''"]
  note law2 = cleanup_law [of demo_config ?bad willing_os True movie_cache "''movie''"]
  have 1: "cleanup_invoked (process_video demo_config ?ok willing_os True movie_cache ''movie'')"
    using law1 [THEN conjunct1] up by simp
  have 2: "''movie'' \<notin> fst ` set (cache_files (cache_after
        (process_video demo_config ?ok willing_os True movie_cache ''movie'')))"
    using law1 [THEN conjunct2, THEN conjunct2] 1 fin by blast
  have 3: "\<not> cleanup_invoked (process_video demo_config ?bad willing_os True movie_cache ''movie'')"
    using law2 [THEN conjunct1] down by simp
  have 4: "cache_files (cache_after (process_video demo_config ?bad willing_os True movie_cache ''movie''))
      = [(''movie'', 2, 1)]"
    using law2 [THEN conjunct2, THEN conjunct1] 3 scan by simp
  show ?thesis using 1 fin 2 3 4 by blast
qed

section \<open>A job directory without media files\<close>

text \<open>
  C10: when the job directory holds no name ending in \<^verbatim>\<open>.ts\<close> or \<^verbatim>\<open>.m3u8\<close>,
  \<^verbatim>\<open>upload_to_qiniu\<close> (past its SDK and credential checks) makes no transfer attempt and
  returns \<^verbatim>\<open>True\<close> with both counters at zero, and \<^verbatim>\<open>process_video\<close> goes on to
  \<^verbatim>\<open>cleanup_local_files\<close> on that directory.
\<close>

theorem empty_job_counts_as_success:
  assumes "use_qiniu c" "QINIU_AVAILABLE b" "qiniu_access_key c \<noteq> []" "qiniu_secret_key c \<noteq> []"
    "qiniu_bucket_name c \<noteq> []" "listdir root item = Some names" "\<forall>f \<in> set names. \<not> eligible f"
  shows "upload_to_qiniu c b (Some names) item =
      \<lparr>result = True, files_uploaded = 0, total_files = 0, attempts_log = []\<rparr>
    \<and> cleanup_invoked (process_video c b os True root item)
    \<and> cache_after (process_video c b os True root item) = fst (cleanup_local_files os root item)"
proof -
  have none: "filter eligible names = []"
    using assms(7) by (simp add: filter_empty_conv)
  have up: "upload_to_qiniu c b (Some names) item =
      \<lparr>result = True, files_uploaded = 0, total_files = 0, attempts_log = []\<rparr>"
    using assms(2-5) by (simp add: upload_to_qiniu_ready qiniu_files_none_eligible [OF assms(7)] none)
  then have "result (upload_to_server c b (listdir root item) item)"
    using assms(1,6) by (simp add: upload_to_server_def)
  then show ?thesis using up by (simp add: process_video_def)
qed

theorem empty_job_counts_as_success_witness:
  "listdir notes_cache ''notes'' = Some [''readme.txt''] \<and> \<not> eligible ''readme.txt''
   \<and> upload_to_qiniu demo_config (scripted_backend (put_always_raises ''timeout'') stor_always_ok)
       (Some [''readme.txt'']) ''notes''
       = \<lparr>result = True, files_uploaded = 0, total_files = 0, attempts_log = []\<rparr>
   \<and> cleanup_invoked (process_video demo_config
       (scripted_backend (put_always_raises ''timeout'') stor_always_ok) willing_os True notes_cache ''notes'')
   \<and> cache_after (process_video demo_config
       (scripted_backend (put_always_raises ''timeout'') stor_always_ok) willing_os True notes_cache ''notes'')
       = []"
proof -
  let ?b = "scripted_backend (put_always_raises ''timeout'') stor_always_ok"
  have h1: "use_qiniu demo_config" by (simp add: demo_config_def)
  have h2: "QINIU_AVAILABLE ?b" by (simp add: scripted_backend_def)
  have h3: "qiniu_access_key demo_config \<noteq> []" by (simp add: demo_config_def)
  have h4: "qiniu_secret_key demo_config \<noteq> []" by (simp add: demo_config_def)
  have h5: "qiniu_bucket_name demo_config \<noteq> []" by (simp add: demo_config_def)
  have h6: "listdir notes_cache ''notes'' = Some [''readme.txt'']"
    by (simp add: listdir_def notes_cache_def)
  have ne: "\<not> eligible ''readme.txt''" by (simp add: eligible_def endswith_def)
  then have h7: "\<forall>f \<in> set [''readme.txt'']. \<not> eligible f" by simp
  have cl: "fst (cleanup_local_files willing_os notes_cache ''notes'') = []"
    by (simp add: cleanup_local_files_def willing_os_def notes_cache_def)
  note e = empty_job_counts_as_success [OF h1 h2 h3 h4 h5 h6 h7, of willing_os]
  show ?thesis using h6 ne e cl by simp
qed

section \<open>The remote target\<close>

lemma takeWhile_slash_set: "set (takeWhile (\<lambda>c. c = CHR ''/'') xs) \<subseteq> {CHR ''/''}"
  by (auto dest: set_takeWhileD)

lemma rstrip_slash_decomp:
  "\<exists>t. s = rstrip_slash s @ t \<and> set t \<subseteq> {CHR ''/''}"
proof -
  let ?P = "\<lambda>c. c = CHR ''/''"
  have "s = rev (takeWhile ?P (rev s) @ dropWhile ?P (rev s))" by simp
  also have "\<dots> = rev (dropWhile ?P (rev s)) @ rev (takeWhile ?P (rev s))"
    by (rule rev_append)
  finally have eq: "s = rstrip_slash s @ rev (takeWhile ?P (rev s))"
    by (simp only: rstrip_slash_def)
  have "set (rev (takeWhile ?P (rev s))) \<subseteq> {CHR ''/''}"
    using takeWhile_slash_set [of "rev s"] by simp
  with eq show ?thesis by blast
qed

lemma rstrip_slash_last:
  assumes "rstrip_slash s \<noteq> []"
  shows "last (rstrip_slash s) \<noteq> CHR ''/''"
proof -
  let ?d = "dropWhile (\<lambda>c. c = CHR ''/'') (rev s)"
  from assms have ne: "?d \<noteq> []" by (simp add: rstrip_slash_def)
  then have "hd ?d \<noteq> CHR ''/''" by (rule hd_dropWhile)
  moreover have "last (rev ?d) = hd ?d" by (simp add: last_rev)
  ultimately show ?thesis by (simp add: rstrip_slash_def)
qed

lemma rstrip_slash_hd:
  assumes "rstrip_slash s \<noteq> []"
  shows "hd (rstrip_slash s) = hd s"
proof -
  obtain t where "s = rstrip_slash s @ t" using rstrip_slash_decomp by blast
  then have "hd s = hd (rstrip_slash s @ t)" by simp
  also have "\<dots> = hd (rstrip_slash s)" using assms by (rule hd_append2)
  finally show ?thesis by simp
qed

lemma strip_slash_decomp:
  "\<exists>a t. p = a @ strip_slash p @ t \<and> set a \<subseteq> {CHR ''/''} \<and> set t \<subseteq> {CHR ''/''}"
proof -
  let ?P = "\<lambda>c. c = CHR ''/''"
  obtain t where t: "dropWhile ?P p = rstrip_slash (dropWhile ?P p) @ t" and st: "set t \<subseteq> {CHR ''/''}"
    using rstrip_slash_decomp [of "dropWhile ?P p"] by blast
  have "p = takeWhile ?P p @ dropWhile ?P p" by simp
  also have "\<dots> = takeWhile ?P p @ strip_slash p @ t"
    using t by (simp only: strip_slash_def)
  finally have eq: "p = takeWhile ?P p @ strip_slash p @ t" .
  have sa: "set (takeWhile ?P p) \<subseteq> {CHR ''/''}" by (rule takeWhile_slash_set)
  from eq sa st show ?thesis by blast
qed

lemma strip_slash_ends:
  assumes "strip_slash p \<noteq> []"
  shows "hd (strip_slash p) \<noteq> CHR ''/'' \<and> last (strip_slash p) \<noteq> CHR ''/''"
proof -
  let ?d = "dropWhile (\<lambda>c. c = CHR ''/'') p"
  from assms have r: "rstrip_slash ?d \<noteq> []" by (simp add: strip_slash_def)
  have "?d \<noteq> []"
  proof
    assume e: "?d = []"
    have "rstrip_slash [] = []" by (simp add: rstrip_slash_def)
    then have "rstrip_slash ?d = []" unfolding e .
    with r show False by blast
  qed
  then have h: "hd ?d \<noteq> CHR ''/''" by (rule hd_dropWhile)
  have "hd (strip_slash p) = hd ?d"
    unfolding strip_slash_def using r by (rule rstrip_slash_hd)
  moreover have "last (strip_slash p) \<noteq> CHR ''/''"
    unfolding strip_slash_def using r by (rule rstrip_slash_last)
  ultimately show ?thesis using h by simp
qed

lemma qiniu_files_log_keys:
  "e \<in> set (snd (qiniu_files b vn names)) \<Longrightarrow>
     eligible (fst e) \<and> fst e \<in> set names \<and> fst (snd e) = qiniu_key vn (fst e)"
proof (induction names)
  case Nil
  then show ?case by simp
next
  case (Cons g gs)
  show ?case
  proof (cases "eligible g")
    case False
    with Cons show ?thesis by simp
  next
    case True
    from Cons.prems True
    have "e \<in> (\<lambda>a. (g, qiniu_key vn g, a)) ` set (snd (qiniu_retry (put_file_v2 b (qiniu_key vn g)) attempt_range))
          \<or> e \<in> set (snd (qiniu_files b vn gs))"
      by (simp add: Let_def case_prod_beta)
    then show ?thesis
    proof
      assume "e \<in> (\<lambda>a. (g, qiniu_key vn g, a)) ` set (snd (qiniu_retry (put_file_v2 b (qiniu_key vn g)) attempt_range))"
      then obtain a where "e = (g, qiniu_key vn g, a)" by blast
      with True show ?thesis by simp
    next
      assume "e \<in> set (snd (qiniu_files b vn gs))"
      then show ?thesis using Cons.IH by simp
    qed
  qed
qed

lemma ftp_remote_file_cases:
  "ftp_remote_file b rd f = f \<or> ftp_remote_file b rd f = rd @ ''/'' @ f"
  by (simp add: ftp_remote_file_def split: option.splits)

lemma ftp_files_log_targets:
  "e \<in> set (snd (ftp_files b rd names)) \<Longrightarrow>
     eligible (fst e) \<and> fst e \<in> set names
     \<and> (fst (snd e) = fst e \<or> fst (snd e) = rd @ ''/'' @ fst e)"
proof (induction names)
  case Nil
  then show ?case by simp
next
  case (Cons g gs)
  show ?case
  proof (cases "eligible g")
    case False
    with Cons show ?thesis by simp
  next
    case True
    from Cons.prems True
    have "e \<in> (\<lambda>a. (g, ftp_remote_file b rd g, a))
                ` set (snd (ftp_retry (storbinary b (ftp_remote_file b rd g)) attempt_range))
          \<or> e \<in> set (snd (ftp_files b rd gs))"
      by (simp add: Let_def case_prod_beta)
    then show ?thesis
    proof
      assume "e \<in> (\<lambda>a. (g, ftp_remote_file b rd g, a))
                ` set (snd (ftp_retry (storbinary b (ftp_remote_file b rd g)) attempt_range))"
      then obtain a where "e = (g, ftp_remote_file b rd g, a)" by blast
      with True ftp_remote_file_cases [of b rd g] show ?thesis by simp
    next
      assume "e \<in> set (snd (ftp_files b rd gs))"
      then show ?thesis using Cons.IH by simp
    qed
  qed
qed

lemma upload_to_qiniu_log:
  "attempts_log (upload_to_qiniu c b listing vn) = [] \<or>
   (\<exists>names. attempts_log (upload_to_qiniu c b listing vn) = snd (qiniu_files b vn names))"
proof (cases listing)
  case None
  then show ?thesis by (simp add: upload_to_qiniu_def early_return_def)
next
  case (Some names)
  then show ?thesis
    by (simp add: upload_to_qiniu_def early_return_def Let_def case_prod_beta) blast
qed

lemma upload_to_ftp_log:
  "attempts_log (upload_to_ftp c b listing vn) = [] \<or>
   (\<exists>names. attempts_log (upload_to_ftp c b listing vn)
          = snd (ftp_files b (ftp_remote_dir (upload_path c) vn) names))"
proof (cases listing)
  case None
  then show ?thesis by (simp add: upload_to_ftp_def early_return_def Let_def)
next
  case (Some names)
  then show ?thesis
    by (simp add: upload_to_ftp_def early_return_def Let_def case_prod_beta) blast
qed

text \<open>
  C6, as stated, fails: the base path \<^verbatim>\<open>/www/video/\<close> and the job \<^verbatim>\<open>movie\<close> give
  \<^verbatim>\<open>www/video/movie\<close>, not base path + \<^verbatim>\<open>/\<close> + job name; and the single-letter base
  path \<^verbatim>\<open>a\<close> does not collapse to the job name.
\<close>

theorem remote_dir_strips_slashes:
  "ftp_remote_dir ''/www/video/'' ''movie'' = ''www/video/movie''
   \<and> ftp_remote_dir ''/www/video/'' ''movie'' \<noteq> ''/www/video/'' @ ''/'' @ ''movie''
   \<and> ftp_remote_dir ''a'' ''movie'' = ''a/movie''"
  by (simp add: ftp_remote_dir_def strip_slash_def rstrip_slash_def)

text \<open>
  C6, amended: the FTP target is a function of the base path and the job name. With the
  base path stripped of its leading and trailing slashes, it is the job name alone when the
  stripped path is empty, \<^verbatim>\<open>.\<close> or \<^verbatim>\<open>v\<close>, and stripped path + \<^verbatim>\<open>/\<close> + job name otherwise.
  Every transfer of an FTP job stores an eligible file under its own name or under
  target + \<^verbatim>\<open>/\<close> + file name; every transfer of an object-storage job stores an eligible
  file under the key job name + \<^verbatim>\<open>/\<close> + file name.
\<close>

theorem remote_target_law:
  "(strip_slash p \<in> {'''', ''.'', ''v''} \<longrightarrow> ftp_remote_dir p vn = vn)
   \<and> (strip_slash p \<notin> {'''', ''.'', ''v''} \<longrightarrow> ftp_remote_dir p vn = strip_slash p @ ''/'' @ vn)
   \<and> (\<exists>a t. p = a @ strip_slash p @ t \<and> set a \<subseteq> {CHR ''/''} \<and> set t \<subseteq> {CHR ''/''})
   \<and> (strip_slash p \<noteq> [] \<longrightarrow> hd (strip_slash p) \<noteq> CHR ''/'' \<and> last (strip_slash p) \<noteq> CHR ''/'')
   \<and> (\<forall>e \<in> set (attempts_log (upload_to_ftp c b listing vn)).
         eligible (fst e)
         \<and> (fst (snd e) = fst e
            \<or> fst (snd e) = ftp_remote_dir (upload_path c) vn @ ''/'' @ fst e))
   \<and> (\<forall>e \<in> set (attempts_log (upload_to_qiniu c b listing vn)).
         eligible (fst e) \<and> fst (snd e) = vn @ ''/'' @ fst e)"
proof (intro conjI)
  show "strip_slash p \<in> {'''', ''.'', ''v''} \<longrightarrow> ftp_remote_dir p vn = vn"
    by (auto simp: ftp_remote_dir_def)
  show "strip_slash p \<notin> {'''', ''.'', ''v''} \<longrightarrow> ftp_remote_dir p vn = strip_slash p @ ''/'' @ vn"
    by (auto simp: ftp_remote_dir_def)
  show "\<exists>a t. p = a @ strip_slash p @ t \<and> set a \<subseteq> {CHR ''/''} \<and> set t \<subseteq> {CHR ''/''}"
    by (rule strip_slash_decomp)
  show "strip_slash p \<noteq> [] \<longrightarrow> hd (strip_slash p) \<noteq> CHR ''/'' \<and> last (strip_slash p) \<noteq> CHR ''/''"
    using strip_slash_ends by blast
  show "\<forall>e \<in> set (attempts_log (upload_to_ftp c b listing vn)).
         eligible (fst e)
         \<and> (fst (snd e) = fst e
            \<or> fst (snd e) = ftp_remote_dir (upload_path c) vn @ ''/'' @ fst e)"
  proof
    fix e assume e: "e \<in> set (attempts_log (upload_to_ftp c b listing vn))"
    then have "attempts_log (upload_to_ftp c b listing vn) \<noteq> []" by auto
    with upload_to_ftp_log [of c b listing vn] obtain names
      where "attempts_log (upload_to_ftp c b listing vn)
          = snd (ftp_files b (ftp_remote_dir (upload_path c) vn) names)" by blast
    with e have "e \<in> set (snd (ftp_files b (ftp_remote_dir (upload_path c) vn) names))" by simp
    from ftp_files_log_targets [OF this]
    show "eligible (fst e)
         \<and> (fst (snd e) = fst e
            \<or> fst (snd e) = ftp_remote_dir (upload_path c) vn @ ''/'' @ fst e)" by blast
  qed
  show "\<forall>e \<in> set (attempts_log (upload_to_qiniu c b listing vn)).
         eligible (fst e) \<and> fst (snd e) = vn @ ''/'' @ fst e"
  proof
    fix e assume e: "e \<in> set (attempts_log (upload_to_qiniu c b listing vn))"
    then have "attempts_log (upload_to_qiniu c b listing vn) \<noteq> []" by auto
    with upload_to_qiniu_log [of c b listing vn] obtain names
      where "attempts_log (upload_to_qiniu c b listing vn) = snd (qiniu_files b vn names)" by blast
    with e have "e \<in> set (snd (qiniu_files b vn names))" by simp
    from qiniu_files_log_keys [OF this]
    show "eligible (fst e) \<and> fst (snd e) = vn @ ''/'' @ fst e"
      by (simp add: qiniu_key_def)
  qed
qed

theorem remote_target_law_witness:
  "strip_slash ''/v/'' \<in> {'''', ''.'', ''v''} \<and> ftp_remote_dir ''/v/'' ''movie'' = ''movie''
   \<and> strip_slash ''/www/video/'' \<notin> {'''', ''.'', ''v''}
   \<and> ftp_remote_dir ''/www/video/'' ''movie'' = ''www/video/movie''
   \<and> (''segment_000.ts'', ''movie/segment_000.ts'', 1)
        \<in> set (attempts_log (upload_to_qiniu demo_config
            (scripted_backend put_always_ok stor_always_ok) (Some movie_files) ''movie''))
   \<and> (''segment_000.ts'', ''www/video/movie/segment_000.ts'', 1)
        \<in> set (attempts_log (upload_to_ftp demo_config
            (scripted_backend put_always_ok stor_always_ok) (Some movie_files) ''movie''))"
proof -
  have s1: "strip_slash ''/v/'' \<in> {'''', ''.'', ''v''}"
    by (simp add: strip_slash_def rstrip_slash_def)
  have s2: "strip_slash ''/www/video/'' \<notin> {'''', ''.'', ''v''}"
    by (simp add: strip_slash_def rstrip_slash_def)
  have s3: "strip_slash ''/www/video/'' = ''www/video''"
    by (simp add: strip_slash_def rstrip_slash_def)
  have 1: "ftp_remote_dir ''/v/'' ''movie'' = ''movie''"
    using remote_target_law [of "''/v/''" "''movie''", THEN conjunct1] s1 by blast
  have 2: "ftp_remote_dir ''/www/video/'' ''movie'' = ''www/video/movie''"
    using remote_target_law [of "''/www/video/''" "''movie''", THEN conjunct2, THEN conjunct1] s2
    by (simp add: s3)
  have 3: "(''segment_000.ts'', ''movie/segment_000.ts'', 1)
        \<in> set (attempts_log (upload_to_qiniu demo_config
            (scripted_backend put_always_ok stor_always_ok) (Some movie_files) ''movie''))"
    by (simp add: upload_to_qiniu_def demo_config_def scripted_backend_def movie_files_def
      put_always_ok_def eligible_def endswith_def qiniu_key_def attempt_range_eq Let_def)
  have 4: "(''segment_000.ts'', ''www/video/movie/segment_000.ts'', 1)
        \<in> set (attempts_log (upload_to_ftp demo_config
            (scripted_backend put_always_ok stor_always_ok) (Some movie_files) ''movie''))"
    by (simp add: upload_to_ftp_def demo_config_def scripted_backend_def movie_files_def
      eligible_def endswith_def ftp_remote_file_def ftp_remote_dir_def strip_slash_def
      rstrip_slash_def attempt_range_eq stor_always_ok_def Let_def)
  show ?thesis using s1 s2 1 2 3 4 by blast
qed

section \<open>The default cache directory\<close>

text \<open>
  C7, as stated, fails: where neither directory exists and neither can be created, the
  \<^verbatim>\<open>os.makedirs\<close> call of the fallback raises and the exception leaves
  \<^verbatim>\<open>set_default_cache_path\<close>.
\<close>

theorem fallback_can_raise:
  "set_default_cache_path nothing_exists read_only_disk CHR ''/'' ''/home/u'' ''/srv/app'' demo_config
     = Inl OSError"
  by (simp add: set_default_cache_path_def nothing_exists_def read_only_disk_def Let_def)

text \<open>
  C7, amended: \<^verbatim>\<open>set_default_cache_path\<close> sets the per-user application-data directory
  when it exists or can be created; otherwise it sets the \<^verbatim>\<open>cache\<close> subdirectory of the
  working directory when that exists or can be created; otherwise the exception of the
  fallback's \<^verbatim>\<open>os.makedirs\<close> reaches the caller. Nothing but the cache path changes.
\<close>

theorem default_cache_path_law:
  "(exists (user_cache_dir sep home) \<or> makedirs_ok (user_cache_dir sep home) \<longrightarrow>
      set_default_cache_path exists makedirs_ok sep home cwd c
        = Inr (c\<lparr>cache_path := user_cache_dir sep home\<rparr>))
   \<and> (\<not> (exists (user_cache_dir sep home) \<or> makedirs_ok (user_cache_dir sep home))
        \<and> (exists (cwd_cache_dir sep cwd) \<or> makedirs_ok (cwd_cache_dir sep cwd)) \<longrightarrow>
      set_default_cache_path exists makedirs_ok sep home cwd c
        = Inr (c\<lparr>cache_path := cwd_cache_dir sep cwd\<rparr>))
   \<and> (\<not> (exists (user_cache_dir sep home) \<or> makedirs_ok (user_cache_dir sep home))
        \<and> \<not> (exists (cwd_cache_dir sep cwd) \<or> makedirs_ok (cwd_cache_dir sep cwd)) \<longrightarrow>
      set_default_cache_path exists makedirs_ok sep home cwd c = Inl OSError)"
  by (simp add: set_default_cache_path_def Let_def)

theorem default_cache_path_law_witness:
  "\<not> (nothing_exists (user_cache_dir CHR ''/'' ''/home/u'')
       \<or> only_cwd_writable (user_cache_dir CHR ''/'' ''/home/u''))
   \<and> only_cwd_writable (cwd_cache_dir CHR ''/'' ''/srv/app'')
   \<and> set_default_cache_path nothing_exists only_cwd_writable CHR ''/'' ''/home/u'' ''/srv/app'' demo_config
       = Inr (demo_config\<lparr>cache_path := ''/srv/app/cache''\<rparr>)
   \<and> set_default_cache_path nothing_exists (\<lambda>p. True) CHR ''/'' ''/home/u'' ''/srv/app'' demo_config
       = Inr (demo_config\<lparr>cache_path := ''/home/u/AppData/Local/VideoSliceUploader/Cache''\<rparr>)"
proof -
  have u: "user_cache_dir CHR ''/'' ''/home/u'' = ''/home/u/AppData/Local/VideoSliceUploader/Cache''"
    by (simp add: user_cache_dir_def os_path_join_def)
  have w: "cwd_cache_dir CHR ''/'' ''/srv/app'' = ''/srv/app/cache''"
    by (simp add: cwd_cache_dir_def os_path_join_def)
  have h1: "\<not> (nothing_exists (user_cache_dir CHR ''/'' ''/home/u'')
       \<or> only_cwd_writable (user_cache_dir CHR ''/'' ''/home/u''))"
    by (simp add: u nothing_exists_def only_cwd_writable_def)
  have h2: "only_cwd_writable (cwd_cache_dir CHR ''/'' ''/srv/app'')"
    by (simp add: w only_cwd_writable_def)
  have 1: "set_default_cache_path nothing_exists only_cwd_writable CHR ''/'' ''/home/u'' ''/srv/app'' demo_config
       = Inr (demo_config\<lparr>cache_path := ''/srv/app/cache''\<rparr>)"
    using default_cache_path_law [of nothing_exists "CHR ''/''" "''/home/u''" only_cwd_writable
        "''/srv/app''" demo_config, THEN conjunct2, THEN conjunct1] h1 h2
    by (simp add: w)
  have 2: "set_default_cache_path nothing_exists (\<lambda>p. True) CHR ''/'' ''/home/u'' ''/srv/app'' demo_config
       = Inr (demo_config\<lparr>cache_path := ''/home/u/AppData/Local/VideoSliceUploader/Cache''\<rparr>)"
    using default_cache_path_law [of nothing_exists "CHR ''/''" "''/home/u''" "\<lambda>p. True"
        "''/srv/app''" demo_config, THEN conjunct1]
    by (simp add: u)
  show ?thesis using h1 h2 1 2 by blast
qed

section \<open>The keep-alive thread\<close>

lemma session_run_Cons: "session_run s (e # events) = session_run (session_step s e) events"
  by (simp add: session_run_def)

lemma session_run_calls:
  "length (noop_calls (session_run s events))
     = length (noop_calls s) + count_list events KeepAliveWakes"
proof (induction events arbitrary: s)
  case Nil
  show ?case by (simp add: session_run_def)
next
  case (Cons e events)
  from Cons.IH [of "session_step s e"] show ?case
    by (cases e) (simp_all add: session_run_Cons)
qed

lemma session_closed_stays:
  "\<not> session_open s \<Longrightarrow>
     \<not> session_open (session_run s events)
     \<and> noop_calls (session_run s events)
         = noop_calls s @ replicate (count_list events KeepAliveWakes) False"
proof (induction events arbitrary: s)
  case Nil
  then show ?case by (simp add: session_run_def)
next
  case (Cons e events)
  show ?case
  proof (cases e)
    case Quit
    with Cons.IH [of "session_step s e"] Cons.prems show ?thesis
      by (simp add: session_run_Cons)
  next
    case KeepAliveWakes
    with Cons.IH [of "session_step s e"] Cons.prems show ?thesis
      by (simp add: session_run_Cons replicate_app_Cons_same)
  qed
qed

text \<open>
  C8, as stated, fails: after the session is quit the keep-alive thread still wakes and
  calls \<^verbatim>\<open>voidcmd('NOOP')\<close> on the closed session.
\<close>

theorem keep_alive_survives_quit:
  "noop_calls (session_run connected_session [KeepAliveWakes, Quit, KeepAliveWakes, KeepAliveWakes])
     = [True, False, False]"
  by (simp add: session_run_def connected_session_def)

text \<open>
  C8, amended: nothing cancels the keep-alive thread. Every time it wakes, before or after
  the session is quit, it makes one \<^verbatim>\<open>NOOP\<close> call (whose exception, if any, is swallowed);
  quitting the session only closes the session, and every call after that is a call on the
  closed session. The thread ends with the process (it is a daemon thread).
\<close>

theorem keep_alive_never_cancelled:
  "length (noop_calls (session_run s events))
     = length (noop_calls s) + count_list events KeepAliveWakes
   \<and> noop_calls (session_run (session_step s Quit) events)
     = noop_calls s @ replicate (count_list events KeepAliveWakes) False
   \<and> \<not> session_open (session_run (session_step s Quit) events)"
proof -
  have "\<not> session_open (session_step s Quit)" by simp
  from session_closed_stays [OF this, of events] session_run_calls [of s events]
  show ?thesis by simp
qed

section \<open>Loading the configuration\<close>







lemma set_var_absent: "set_var conv None setter c = (True, c)"
  by (simp add: set_var_def)






























































































































end
